theory Spec2Isabelle
  imports
    Main
    "HOL-Library.AList"
    "HOL-Library.Sublist"
    "HOL-Library.Multiset"
    "HOL-Library.Char_ord"
    "HOL-Library.List_Lexorder"
    "HOL-Library.Word"
begin

section \<open>Python values and the object store\<close>

text \<open>
  The document handed to \<open>extract_controls_by_id\<close> is what \<open>json.load\<close> returns: dicts
  with string keys, lists, strings, numbers, booleans and \<open>None\<close>. Dicts and lists are
  mutable objects with an identity, so they live in a store and values refer to them by
  address; the function copies the top-level dict only, and what it writes through the
  copy is visible to every holder of the nested objects. A dict is an association list
  in insertion order. A float is carried as its 64 bits: the function never inspects one.
\<close>

datatype pval =
    PNone
  | PBool bool
  | PInt int
  | PFloat "64 word"
  | PStr string
  | PRef nat

datatype pobj =
    PList "pval list"
  | PDict "(string \<times> pval) list"

type_synonym heap = "pobj list"

text \<open>
  \<open>ValueError\<close> is the error the function raises itself (the specification's
  StructureError); \<open>AttributeError\<close>, \<open>TypeError\<close> and \<open>KeyError\<close> are raised by the
  interpreter on values of the wrong kind. \<open>Dangling\<close> stands for an address with no
  object behind it, which no run of the interpreter produces.
\<close>

datatype py_error =
    ValueError string
  | AttributeError
  | TypeError
  | KeyError
  | Dangling

definition deref :: "heap \<Rightarrow> nat \<Rightarrow> pobj option" where
  "deref h a = (if a < length h then Some (h ! a) else None)"

definition alloc :: "heap \<Rightarrow> pobj \<Rightarrow> heap \<times> pval" where
  "alloc h obj = (h @ [obj], PRef (length h))"

subsection \<open>The operations of the interpreter the function uses\<close>

text \<open>\<open>v.copy()\<close>: lists and dicts have the method, a shallow copy; nothing else has.\<close>

definition py_copy :: "heap \<Rightarrow> pval \<Rightarrow> py_error + heap \<times> pval" where
  "py_copy h v =
     (case v of
        PRef a \<Rightarrow> (case deref h a of None \<Rightarrow> Inl Dangling | Some obj \<Rightarrow> Inr (alloc h obj))
      | _ \<Rightarrow> Inl AttributeError)"

text \<open>
  \<open>k in v\<close> for a string \<open>k\<close>: a key of a dict, an element of a list, a substring of a
  string; the other values are not iterable.
\<close>

definition py_contains :: "heap \<Rightarrow> string \<Rightarrow> pval \<Rightarrow> py_error + bool" where
  "py_contains h k v =
     (case v of
        PRef a \<Rightarrow>
          (case deref h a of
             None \<Rightarrow> Inl Dangling
           | Some (PDict kvs) \<Rightarrow> Inr (map_of kvs k \<noteq> None)
           | Some (PList xs) \<Rightarrow> Inr (PStr k \<in> set xs))
      | PStr s \<Rightarrow> Inr (sublist k s)
      | _ \<Rightarrow> Inl TypeError)"

text \<open>\<open>v[k]\<close> for a string \<open>k\<close>: only a dict can be subscripted by a string.\<close>

definition py_getitem :: "heap \<Rightarrow> pval \<Rightarrow> string \<Rightarrow> py_error + pval" where
  "py_getitem h v k =
     (case v of
        PRef a \<Rightarrow>
          (case deref h a of
             None \<Rightarrow> Inl Dangling
           | Some (PDict kvs) \<Rightarrow> (case map_of kvs k of None \<Rightarrow> Inl KeyError | Some x \<Rightarrow> Inr x)
           | Some (PList xs) \<Rightarrow> Inl TypeError)
      | _ \<Rightarrow> Inl TypeError)"

text \<open>\<open>v.get(k, default)\<close>: a method of dicts only.\<close>

definition py_get :: "heap \<Rightarrow> pval \<Rightarrow> string \<Rightarrow> pval \<Rightarrow> py_error + pval" where
  "py_get h v k dflt =
     (case v of
        PRef a \<Rightarrow>
          (case deref h a of
             None \<Rightarrow> Inl Dangling
           | Some (PDict kvs) \<Rightarrow> (case map_of kvs k of None \<Rightarrow> Inr dflt | Some x \<Rightarrow> Inr x)
           | Some (PList xs) \<Rightarrow> Inl AttributeError)
      | _ \<Rightarrow> Inl AttributeError)"

text \<open>
  \<open>v[k] = x\<close> for a string \<open>k\<close>: the dict is changed in place; a key already there keeps
  its position, a new one goes last.
\<close>

definition py_setitem :: "heap \<Rightarrow> pval \<Rightarrow> string \<Rightarrow> pval \<Rightarrow> py_error + heap" where
  "py_setitem h v k x =
     (case v of
        PRef a \<Rightarrow>
          (case deref h a of
             None \<Rightarrow> Inl Dangling
           | Some (PDict kvs) \<Rightarrow> Inr (h[a := PDict (AList.update k x kvs)])
           | Some (PList xs) \<Rightarrow> Inl TypeError)
      | _ \<Rightarrow> Inl TypeError)"

text \<open>
  \<open>for control in v\<close>: the elements of a list, the keys of a dict, the characters of a
  string; the other values are not iterable.
\<close>

definition py_iter :: "heap \<Rightarrow> pval \<Rightarrow> py_error + pval list" where
  "py_iter h v =
     (case v of
        PRef a \<Rightarrow>
          (case deref h a of
             None \<Rightarrow> Inl Dangling
           | Some (PDict kvs) \<Rightarrow> Inr (map (\<lambda>kv. PStr (fst kv)) kvs)
           | Some (PList xs) \<Rightarrow> Inr xs)
      | PStr s \<Rightarrow> Inr (map (\<lambda>c. PStr [c]) s)
      | _ \<Rightarrow> Inl TypeError)"

text \<open>
  \<open>v in control_ids\<close> where \<open>control_ids\<close> is a list of strings: list membership
  compares with \<open>==\<close>, and only a string equals a string.
\<close>

definition py_in_ids :: "pval \<Rightarrow> string list \<Rightarrow> bool" where
  "py_in_ids v control_ids = (case v of PStr s \<Rightarrow> s \<in> set control_ids | _ \<Rightarrow> False)"

text \<open>The decimal digits of \<open>len(filtered_controls)\<close> inside an f-string.\<close>

fun str_of_nat :: "nat \<Rightarrow> string" where
  "str_of_nat n =
     (if n < 10 then [char_of (48 + n)]
      else str_of_nat (n div 10) @ [char_of (48 + n mod 10)])"

declare str_of_nat.simps [simp del]

text \<open>
  \<open>f"{v}"\<close>: a string is inserted as it is. What the interpreter prints for any other
  value (\<open>str(v)\<close>) is a parameter \<open>fmt\<close> of the model.
\<close>

definition py_format :: "(heap \<Rightarrow> pval \<Rightarrow> string) \<Rightarrow> heap \<Rightarrow> pval \<Rightarrow> string" where
  "py_format fmt h v = (case v of PStr s \<Rightarrow> s | _ \<Rightarrow> fmt h v)"

section \<open>extract\_controls\_by\_id\<close>

text \<open>
  What a call leaves behind: the store, the identifiers of the warning line if one was
  printed (\<open>sorted(missing_ids)\<close>), and the returned value or the exception.
\<close>

record outcome =
  heap_of :: heap
  warned :: "string list option"
  result :: "py_error + pval"

definition raise :: "heap \<Rightarrow> py_error \<Rightarrow> outcome" where
  "raise h e = \<lparr>heap_of = h, warned = None, result = Inl e\<rparr>"

definition structure_message :: string where
  "structure_message = ''Invalid NIST CSF structure: missing catalog.securityControls''"

text \<open>
  The guard of the function:
  \<open>'catalog' not in data or 'securityControls' not in data['catalog']\<close>,
  with the short-circuit of \<open>or\<close>.
\<close>

definition structure_missing :: "heap \<Rightarrow> pval \<Rightarrow> py_error + bool" where
  "structure_missing h data =
     (case py_contains h ''catalog'' data of
        Inl e \<Rightarrow> Inl e
      | Inr False \<Rightarrow> Inr True
      | Inr True \<Rightarrow>
          (case py_getitem h data ''catalog'' of
             Inl e \<Rightarrow> Inl e
           | Inr catalog \<Rightarrow>
               (case py_contains h ''securityControls'' catalog of
                  Inl e \<Rightarrow> Inl e
                | Inr b \<Rightarrow> Inr (\<not> b))))"

text \<open>
  The loop over \<open>original_controls\<close>, with its two accumulators. The store is only read.
\<close>

fun filter_loop ::
  "heap \<Rightarrow> string list \<Rightarrow> pval list \<Rightarrow> pval list \<Rightarrow> pval set \<Rightarrow> py_error + pval list \<times> pval set"
where
  "filter_loop h control_ids [] filtered_controls found_ids = Inr (filtered_controls, found_ids)"
| "filter_loop h control_ids (control # rest) filtered_controls found_ids =
     (case py_get h control ''controlId'' PNone of
        Inl e \<Rightarrow> Inl e
      | Inr cid \<Rightarrow>
          if py_in_ids cid control_ids
          then filter_loop h control_ids rest (filtered_controls @ [control]) (insert cid found_ids)
          else filter_loop h control_ids rest filtered_controls found_ids)"

text \<open>\<open>set(control_ids) - found_ids\<close>.\<close>

definition missing_ids :: "string list \<Rightarrow> pval set \<Rightarrow> string set" where
  "missing_ids control_ids found_ids = {s \<in> set control_ids. PStr s \<notin> found_ids}"

definition warning :: "string set \<Rightarrow> string list option" where
  "warning missing = (if missing \<noteq> {} then Some (sorted_list_of_set missing) else None)"

definition title_suffix :: "nat \<Rightarrow> string" where
  "title_suffix n = '' (Filtered - '' @ str_of_nat n @ '' controls)''"

definition description_note :: "nat \<Rightarrow> string" where
  "description_note n =
     [CHR 0x0A, CHR 0x0A] @
     ''<p><strong>Note:</strong> This is a filtered version containing only '' @
     str_of_nat n @ '' specific controls extracted from the original framework.</p>''"

text \<open>
  The metadata update at the end of the function, guarded by
  \<open>'catalog' in filtered_data\<close>. Each of the four statements evaluates
  \<open>filtered_data['catalog']\<close> anew; in an assignment the f-string is evaluated before
  the target.
\<close>

definition update_metadata ::
  "(heap \<Rightarrow> pval \<Rightarrow> string) \<Rightarrow> heap \<Rightarrow> pval \<Rightarrow> nat \<Rightarrow> py_error + heap" where
  "update_metadata fmt h filtered_data n =
     (case py_contains h ''catalog'' filtered_data of
        Inl e \<Rightarrow> Inl e
      | Inr False \<Rightarrow> Inr h
      | Inr True \<Rightarrow>
          (case py_getitem h filtered_data ''catalog'' of
             Inl e \<Rightarrow> Inl e
           | Inr catalog \<Rightarrow>
          (case py_get h catalog ''title'' (PStr ''NIST CSF 2.0'') of
             Inl e \<Rightarrow> Inl e
           | Inr original_title \<Rightarrow>
          (case py_getitem h filtered_data ''catalog'' of
             Inl e \<Rightarrow> Inl e
           | Inr title_target \<Rightarrow>
          (case py_setitem h title_target ''title''
                  (PStr (py_format fmt h original_title @ title_suffix n)) of
             Inl e \<Rightarrow> Inl e
           | Inr h1 \<Rightarrow>
          (case py_getitem h1 filtered_data ''catalog'' of
             Inl e \<Rightarrow> Inl e
           | Inr catalog1 \<Rightarrow>
          (case py_get h1 catalog1 ''description'' (PStr []) of
             Inl e \<Rightarrow> Inl e
           | Inr original_description \<Rightarrow>
          (case py_getitem h1 filtered_data ''catalog'' of
             Inl e \<Rightarrow> Inl e
           | Inr description_target \<Rightarrow>
               py_setitem h1 description_target ''description''
                 (PStr (py_format fmt h1 original_description @ description_note n))))))))))"

text \<open>
  The tail of the function, after the loop: the write of the filtered list into the
  catalog reached through the copy, then the metadata update.
\<close>

definition store_filtered ::
  "(heap \<Rightarrow> pval \<Rightarrow> string) \<Rightarrow> heap \<Rightarrow> string list option \<Rightarrow> pval \<Rightarrow> pval \<Rightarrow> nat \<Rightarrow> outcome"
where
  "store_filtered fmt h w filtered_data filtered_ref n =
     (case py_getitem h filtered_data ''catalog'' of
        Inl e \<Rightarrow> \<lparr>heap_of = h, warned = w, result = Inl e\<rparr>
      | Inr catalog \<Rightarrow>
          (case py_setitem h catalog ''securityControls'' filtered_ref of
             Inl e \<Rightarrow> \<lparr>heap_of = h, warned = w, result = Inl e\<rparr>
           | Inr h1 \<Rightarrow>
               (case update_metadata fmt h1 filtered_data n of
                  Inl e \<Rightarrow> \<lparr>heap_of = h1, warned = w, result = Inl e\<rparr>
                | Inr h2 \<Rightarrow> \<lparr>heap_of = h2, warned = w, result = Inr filtered_data\<rparr>)))"

text \<open>
  The middle of the function: the empty result list is created, the loop fills it, the
  warning is printed when identifiers are missing.
\<close>

definition filter_controls ::
  "(heap \<Rightarrow> pval \<Rightarrow> string) \<Rightarrow> heap \<Rightarrow> pval \<Rightarrow> pval \<Rightarrow> string list \<Rightarrow> outcome"
where
  "filter_controls fmt h filtered_data original_controls control_ids =
     (case alloc h (PList []) of
        (h1, filtered_ref) \<Rightarrow>
          (case py_iter h1 original_controls of
             Inl e \<Rightarrow> raise h1 e
           | Inr controls \<Rightarrow>
               (case filter_loop h1 control_ids controls [] {} of
                  Inl e \<Rightarrow> raise h1 e
                | Inr (filtered_controls, found_ids) \<Rightarrow>
                    store_filtered fmt (h1[length h := PList filtered_controls])
                      (warning (missing_ids control_ids found_ids))
                      filtered_data filtered_ref (length filtered_controls))))"

text \<open>
  The function from its first statement: the shallow copy, the guard, the read of
  \<open>data['catalog']['securityControls']\<close>.
\<close>

definition extract_controls_by_id ::
  "(heap \<Rightarrow> pval \<Rightarrow> string) \<Rightarrow> heap \<Rightarrow> pval \<Rightarrow> string list \<Rightarrow> outcome"
where
  "extract_controls_by_id fmt h data control_ids =
     (case py_copy h data of
        Inl e \<Rightarrow> raise h e
      | Inr (h1, filtered_data) \<Rightarrow>
          (case structure_missing h1 data of
             Inl e \<Rightarrow> raise h1 e
           | Inr True \<Rightarrow> raise h1 (ValueError structure_message)
           | Inr False \<Rightarrow>
               (case py_getitem h1 data ''catalog'' of
                  Inl e \<Rightarrow> raise h1 e
                | Inr catalog \<Rightarrow>
                    (case py_getitem h1 catalog ''securityControls'' of
                       Inl e \<Rightarrow> raise h1 e
                     | Inr original_controls \<Rightarrow>
                         filter_controls fmt h1 filtered_data original_controls control_ids))))"

section \<open>Reading a document in the store\<close>

text \<open>What the claims observe: the dict or list behind a value, a field, the catalog.\<close>

definition dict_at :: "heap \<Rightarrow> pval \<Rightarrow> (string \<times> pval) list option" where
  "dict_at h v =
     (case v of
        PRef a \<Rightarrow> (case deref h a of Some (PDict kvs) \<Rightarrow> Some kvs | _ \<Rightarrow> None)
      | _ \<Rightarrow> None)"

definition list_at :: "heap \<Rightarrow> pval \<Rightarrow> pval list option" where
  "list_at h v =
     (case v of
        PRef a \<Rightarrow> (case deref h a of Some (PList xs) \<Rightarrow> Some xs | _ \<Rightarrow> None)
      | _ \<Rightarrow> None)"

definition field :: "heap \<Rightarrow> pval \<Rightarrow> string \<Rightarrow> pval option" where
  "field h v k = (case dict_at h v of None \<Rightarrow> None | Some kvs \<Rightarrow> map_of kvs k)"

definition catalog_field :: "heap \<Rightarrow> pval \<Rightarrow> string \<Rightarrow> pval option" where
  "catalog_field h data k =
     (case field h data ''catalog'' of None \<Rightarrow> None | Some catalog \<Rightarrow> field h catalog k)"

definition security_controls :: "heap \<Rightarrow> pval \<Rightarrow> pval list option" where
  "security_controls h data =
     (case catalog_field h data ''securityControls'' of
        None \<Rightarrow> None
      | Some controls \<Rightarrow> list_at h controls)"

definition is_mapping :: "heap \<Rightarrow> pval \<Rightarrow> bool" where
  "is_mapping h v = (dict_at h v \<noteq> None)"

text \<open>
  A valid document: a dict whose \<open>catalog\<close> is a dict whose \<open>securityControls\<close> is a list
  of dicts.
\<close>

definition valid_document :: "heap \<Rightarrow> pval \<Rightarrow> bool" where
  "valid_document h data =
     (case security_controls h data of
        None \<Rightarrow> False
      | Some controls \<Rightarrow> list_all (is_mapping h) controls)"

text \<open>A control matches when its \<open>controlId\<close> is a string of the requested list.\<close>

definition matches :: "heap \<Rightarrow> string list \<Rightarrow> pval \<Rightarrow> bool" where
  "matches h control_ids control =
     (case field h control ''controlId'' of
        Some (PStr s) \<Rightarrow> s \<in> set control_ids
      | _ \<Rightarrow> False)"

text \<open>The value \<open>control.get('controlId')\<close> yields for a control that is a dict.\<close>

definition id_of :: "heap \<Rightarrow> pval \<Rightarrow> pval" where
  "id_of h control = (case field h control ''controlId'' of None \<Rightarrow> PNone | Some v \<Rightarrow> v)"

definition has_id :: "heap \<Rightarrow> string \<Rightarrow> pval \<Rightarrow> bool" where
  "has_id h s control = (field h control ''controlId'' = Some (PStr s))"

text \<open>The controls of the returned document, when the call returned one.\<close>

definition output_controls :: "outcome \<Rightarrow> pval list option" where
  "output_controls out =
     (case result out of Inl e \<Rightarrow> None | Inr r \<Rightarrow> security_controls (heap_of out) r)"

definition output_field :: "outcome \<Rightarrow> string \<Rightarrow> pval option" where
  "output_field out k =
     (case result out of Inl e \<Rightarrow> None | Inr r \<Rightarrow> catalog_field (heap_of out) r k)"

text \<open>
  The text the two f-strings insert for the original title and description, and the
  catalog dict after the three writes.
\<close>

definition shown_title :: "(heap \<Rightarrow> pval \<Rightarrow> string) \<Rightarrow> heap \<Rightarrow> (string \<times> pval) list \<Rightarrow> string" where
  "shown_title fmt h kvs =
     py_format fmt h (case map_of kvs ''title'' of None \<Rightarrow> PStr ''NIST CSF 2.0'' | Some v \<Rightarrow> v)"

definition shown_description :: "(heap \<Rightarrow> pval \<Rightarrow> string) \<Rightarrow> heap \<Rightarrow> (string \<times> pval) list \<Rightarrow> string" where
  "shown_description fmt h kvs =
     py_format fmt h (case map_of kvs ''description'' of None \<Rightarrow> PStr [] | Some v \<Rightarrow> v)"

definition annotated_catalog ::
  "(heap \<Rightarrow> pval \<Rightarrow> string) \<Rightarrow> heap \<Rightarrow> nat \<Rightarrow> (string \<times> pval) list \<Rightarrow> pval \<Rightarrow> nat \<Rightarrow> (string \<times> pval) list"
where
  "annotated_catalog fmt g c kvs fr n =
     (let kvs1 = AList.update ''securityControls'' fr kvs;
          kvs2 = AList.update ''title''
                   (PStr (shown_title fmt (g[c := PDict kvs1]) kvs @ title_suffix n)) kvs1
      in AList.update ''description''
           (PStr (shown_description fmt (g[c := PDict kvs2]) kvs @ description_note n)) kvs2)"

section \<open>The command line\<close>

text \<open>
  \<open>main\<close> chooses the identifiers with
  \<open>control_ids = args.controls if args.controls else TARGET_CONTROL_IDS\<close>.
  \<open>args.controls\<close> is \<open>None\<close> when the flag \<open>--controls\<close> is absent and the list of its
  arguments otherwise (\<open>nargs='*'\<close>, so the list may be empty). \<open>None\<close> and the empty
  list are both false in a condition.
\<close>

definition TARGET_CONTROL_IDS :: "string list" where
  "TARGET_CONTROL_IDS =
     [''ID.AM-03'', ''ID.AM-07'', ''ID.AM-08'', ''ID.IM-01'', ''ID.IM-02'', ''ID.IM-03'',
      ''ID.RA-01'', ''ID.RA-07'', ''PR.AA-05'', ''PR.DS-01'', ''PR.DS-02'', ''PR.DS-10'',
      ''PR.IR-01'', ''PR.PS-01'', ''PR.PS-05'', ''DE.AE-02'', ''DE.AE-03'', ''DE.CM-01'',
      ''DE.CM-02'', ''DE.CM-03'', ''DE.CM-06'', ''DE.CM-09'']"

definition py_truthy :: "string list option \<Rightarrow> bool" where
  "py_truthy controls = (case controls of None \<Rightarrow> False | Some xs \<Rightarrow> xs \<noteq> [])"

definition select_control_ids :: "string list option \<Rightarrow> string list" where
  "select_control_ids controls =
     (case controls of
        None \<Rightarrow> TARGET_CONTROL_IDS
      | Some xs \<Rightarrow> if py_truthy (Some xs) then xs else TARGET_CONTROL_IDS)"

section \<open>Documents with a missing key\<close>

text \<open>
  A document of the right kinds of value, whatever keys it has: a dict; its \<open>catalog\<close>,
  when there is one, a dict; the \<open>securityControls\<close> of that, when there are any, a list
  of dicts.
\<close>

definition well_typed_document :: "heap \<Rightarrow> pval \<Rightarrow> bool" where
  "well_typed_document h data =
     (case dict_at h data of
        None \<Rightarrow> False
      | Some d \<Rightarrow>
          (case map_of d ''catalog'' of
             None \<Rightarrow> True
           | Some catalog \<Rightarrow>
               (case dict_at h catalog of
                  None \<Rightarrow> False
                | Some cat \<Rightarrow>
                    (case map_of cat ''securityControls'' of
                       None \<Rightarrow> True
                     | Some controls \<Rightarrow>
                         (case list_at h controls of
                            None \<Rightarrow> False
                          | Some cs \<Rightarrow> list_all (is_mapping h) cs)))))"

section \<open>Example documents\<close>

text \<open>
  An instance of the parameter \<open>fmt\<close> for the examples, in which every title and
  description is a string or absent, so that it is never consulted.
\<close>

definition no_text :: "heap \<Rightarrow> pval \<Rightarrow> string" where
  "no_text h v = []"

text \<open>
  \<open>example_heap\<close> holds, at address 0, the document
  \<^verbatim>\<open>{"catalog": {"title": "CSF", "description": "All",
     "securityControls": [{"controlId": "A", "title": "first"}, {"controlId": "B"},
                          {"family": "none"}, {"controlId": "A", "title": "again"}]}}\<close>:
  four controls, one without \<open>controlId\<close>, two with the same one.
\<close>

definition example_heap :: heap where
  "example_heap =
     [PDict [(''catalog'', PRef 1)],
      PDict [(''title'', PStr ''CSF''), (''description'', PStr ''All''),
             (''securityControls'', PRef 2)],
      PList [PRef 3, PRef 4, PRef 5, PRef 6],
      PDict [(''controlId'', PStr ''A''), (''title'', PStr ''first'')],
      PDict [(''controlId'', PStr ''B'')],
      PDict [(''family'', PStr ''none'')],
      PDict [(''controlId'', PStr ''A''), (''title'', PStr ''again'')]]"

text \<open>
  \<^verbatim>\<open>{"catalog": {"securityControls": [{"controlId": "A"}, {"controlId": 7}]}}\<close>: no title,
  no description, a control whose \<open>controlId\<close> is a number.
\<close>

definition untitled_heap :: heap where
  "untitled_heap =
     [PDict [(''catalog'', PRef 1)],
      PDict [(''securityControls'', PRef 2)],
      PList [PRef 3, PRef 4],
      PDict [(''controlId'', PStr ''A'')],
      PDict [(''controlId'', PInt 7)]]"

text \<open>\<^verbatim>\<open>{"catalog": {"title": "CSF"}}\<close>: the key \<open>securityControls\<close> is missing.\<close>

definition keyless_heap :: heap where
  "keyless_heap =
     [PDict [(''catalog'', PRef 1)],
      PDict [(''title'', PStr ''CSF'')]]"

text \<open>
  \<^verbatim>\<open>{"catalog": {"securityControls": [1]}}\<close>: both keys are there, and the one control is a
  number.
\<close>

definition number_control_heap :: heap where
  "number_control_heap =
     [PDict [(''catalog'', PRef 1)],
      PDict [(''securityControls'', PRef 2)],
      PList [PInt 1]]"

section \<open>The store and the dict operations\<close>

lemma deref_append: "a < length h \<Longrightarrow> deref (h @ ys) a = deref h a"
  by (simp add: deref_def nth_append)

lemma deref_lt: "deref h a = Some obj \<Longrightarrow> a < length h"
  by (simp add: deref_def split: if_splits)

lemma deref_update: "deref (h[a := obj]) b = (if b = a \<and> a < length h then Some obj else deref h b)"
  by (auto simp: deref_def)

lemma dict_atE:
  assumes "dict_at h v = Some kvs"
  obtains a where "v = PRef a" "deref h a = Some (PDict kvs)"
  using assms by (auto simp: dict_at_def split: pval.splits option.splits pobj.splits)

lemma list_atE:
  assumes "list_at h v = Some xs"
  obtains a where "v = PRef a" "deref h a = Some (PList xs)"
  using assms by (auto simp: list_at_def split: pval.splits option.splits pobj.splits)

lemma py_get_field:
  "is_mapping h x \<Longrightarrow> py_get h x k dflt = Inr (case field h x k of None \<Rightarrow> dflt | Some v \<Rightarrow> v)"
  by (auto simp: is_mapping_def py_get_def field_def dict_at_def split: pval.splits option.splits pobj.splits)

lemma dict_at_append: "dict_at h v = Some kvs \<Longrightarrow> dict_at (h @ ys) v = Some kvs"
  by (auto simp: dict_at_def deref_append deref_def nth_append split: pval.splits option.splits pobj.splits if_splits)

lemma is_mapping_append: "is_mapping h x \<Longrightarrow> is_mapping (h @ ys) x"
  by (auto simp: is_mapping_def dest: dict_at_append)

lemma field_append: "is_mapping h x \<Longrightarrow> field (h @ ys) x k = field h x k"
  by (auto simp: is_mapping_def field_def dict_at_append)

lemma matches_id_of: "matches h ids x = py_in_ids (id_of h x) ids"
  by (auto simp: matches_def id_of_def py_in_ids_def split: option.splits pval.splits)

lemma filter_loop_eq:
  "list_all (is_mapping h) cs \<Longrightarrow>
   filter_loop h ids cs acc found =
     Inr (acc @ filter (matches h ids) cs, found \<union> id_of h ` set (filter (matches h ids) cs))"
proof (induction cs arbitrary: acc found)
  case Nil
  then show ?case by simp
next
  case (Cons x cs)
  then show ?case
    by (simp add: py_get_field matches_id_of id_of_def)
qed



lemma deref_fresh: "deref (h @ obj # ys) (length h) = Some obj"
  by (simp add: deref_def)

lemma deref_fresh_Suc: "deref (h @ obj # obj' # ys) (Suc (length h)) = Some obj'"
  by (simp add: deref_def nth_append)

lemma map_of_update_other: "k \<noteq> k' \<Longrightarrow> map_of (AList.update k v kvs) k' = map_of kvs k'"
  by (simp add: update_conv')

lemma map_of_update_same: "map_of (AList.update k v kvs) k = Some v"
  by (simp add: update_conv')

lemma update_metadata_eq:
  assumes fd: "deref g fd = Some (PDict d)"
    and cat: "map_of d ''catalog'' = Some (PRef c)"
    and c: "deref g c = Some (PDict kvs)"
    and neq: "c \<noteq> fd"
  shows "update_metadata fmt g (PRef fd) n =
     Inr (g[c := PDict (AList.update ''description''
                 (PStr (shown_description fmt
                          (g[c := PDict (AList.update ''title''
                                   (PStr (shown_title fmt g kvs @ title_suffix n)) kvs)])
                          kvs @ description_note n))
              (AList.update ''title'' (PStr (shown_title fmt g kvs @ title_suffix n)) kvs))])"
proof -
  have lt: "c < length g" using c by (rule deref_lt)
  have 1: "py_contains g ''catalog'' (PRef fd) = Inr True"
    by (simp add: py_contains_def fd cat)
  have 2: "py_getitem g (PRef fd) ''catalog'' = Inr (PRef c)"
    by (simp add: py_getitem_def fd cat)
  have 3: "py_get g (PRef c) ''title'' (PStr ''NIST CSF 2.0'') =
      Inr (case map_of kvs ''title'' of None \<Rightarrow> PStr ''NIST CSF 2.0'' | Some v \<Rightarrow> v)"
    by (simp add: py_get_def c split: option.splits)
  have 4: "py_setitem g (PRef c) ''title'' t = Inr (g[c := PDict (AList.update ''title'' t kvs)])"
    for t
    by (simp add: py_setitem_def c)
  have fd1: "deref (g[c := obj]) fd = Some (PDict d)" for obj
    using neq fd by (simp add: deref_update)
  have c1: "deref (g[c := obj]) c = Some obj" for obj
    using lt by (simp add: deref_update)
  have 5: "py_getitem (g[c := obj]) (PRef fd) ''catalog'' = Inr (PRef c)" for obj
    by (simp add: py_getitem_def fd1 cat)
  have 6: "py_get (g[c := PDict (AList.update ''title'' t kvs)]) (PRef c) ''description'' (PStr []) =
      Inr (case map_of kvs ''description'' of None \<Rightarrow> PStr [] | Some v \<Rightarrow> v)" for t
    by (simp add: py_get_def c1 map_of_update_other split: option.splits)
  have 7: "py_setitem (g[c := PDict kvs']) (PRef c) ''description'' x =
      Inr (g[c := PDict (AList.update ''description'' x kvs')])" for x kvs'
    by (simp add: py_setitem_def c1)
  show ?thesis
    unfolding update_metadata_def shown_title_def shown_description_def
    by (simp add: 1 2 3 4 5 6 7)
qed

lemma shown_title_update: "k \<noteq> ''title'' \<Longrightarrow> shown_title fmt g (AList.update k v kvs) = shown_title fmt g kvs"
  by (simp add: shown_title_def map_of_update_other)

lemma shown_description_update:
  "k \<noteq> ''description'' \<Longrightarrow> shown_description fmt g (AList.update k v kvs) = shown_description fmt g kvs"
  by (simp add: shown_description_def map_of_update_other)

lemma store_filtered_eq:
  assumes fd: "deref g fd = Some (PDict d)"
    and cat: "map_of d ''catalog'' = Some (PRef c)"
    and c: "deref g c = Some (PDict kvs)"
    and neq: "c \<noteq> fd"
  shows "store_filtered fmt g w (PRef fd) fr n =
     \<lparr>heap_of = g[c := PDict (annotated_catalog fmt g c kvs fr n)],
      warned = w, result = Inr (PRef fd)\<rparr>"
proof -
  let ?kvs1 = "AList.update ''securityControls'' fr kvs"
  let ?g1 = "g[c := PDict ?kvs1]"
  have lt: "c < length g" using c by (rule deref_lt)
  have 1: "py_getitem g (PRef fd) ''catalog'' = Inr (PRef c)"
    by (simp add: py_getitem_def fd cat)
  have 2: "py_setitem g (PRef c) ''securityControls'' fr = Inr ?g1"
    by (simp add: py_setitem_def c)
  have fd1: "deref ?g1 fd = Some (PDict d)"
    using neq fd by (simp add: deref_update)
  have c1: "deref ?g1 c = Some (PDict ?kvs1)"
    using lt by (simp add: deref_update)
  note um = update_metadata_eq [OF fd1 cat c1 neq, of fmt n]
  show ?thesis
    unfolding store_filtered_def
    by (simp add: 1 2 um annotated_catalog_def Let_def shown_title_update shown_description_update)
qed

lemma matches_append: "is_mapping h x \<Longrightarrow> matches (h @ ys) ids x = matches h ids x"
  by (simp add: matches_def field_append)

lemma id_of_append: "is_mapping h x \<Longrightarrow> id_of (h @ ys) x = id_of h x"
  by (simp add: id_of_def field_append)

lemma filter_loop_append:
  assumes "list_all (is_mapping h) cs"
  shows "filter_loop (h @ ys) ids cs [] {} =
     Inr (filter (matches h ids) cs, id_of h ` set (filter (matches h ids) cs))"
proof -
  have all: "list_all (is_mapping (h @ ys)) cs"
    using assms by (simp add: list_all_iff is_mapping_append)
  have f: "filter (matches (h @ ys) ids) cs = filter (matches h ids) cs"
    using assms by (intro filter_cong refl) (simp add: list_all_iff matches_append)
  have "id_of (h @ ys) ` set (filter (matches h ids) cs) = id_of h ` set (filter (matches h ids) cs)"
    using assms by (intro image_cong refl) (simp add: list_all_iff id_of_append)
  with filter_loop_eq [OF all, of ids "[]" "{}"] f show ?thesis by simp
qed

lemma extract_eq:
  assumes A: "deref h a = Some (PDict d)"
    and B: "map_of d ''catalog'' = Some (PRef c)"
    and C: "deref h c = Some (PDict cat)"
    and D: "map_of cat ''securityControls'' = Some (PRef l)"
    and E: "deref h l = Some (PList cs)"
    and F: "list_all (is_mapping h) cs"
  shows "extract_controls_by_id fmt h (PRef a) ids =
     \<lparr>heap_of = (h @ [PDict d, PList (filter (matches h ids) cs)])
         [c := PDict (annotated_catalog fmt (h @ [PDict d, PList (filter (matches h ids) cs)]) c cat
                        (PRef (Suc (length h))) (length (filter (matches h ids) cs)))],
      warned = warning (missing_ids ids (id_of h ` set (filter (matches h ids) cs))),
      result = Inr (PRef (length h))\<rparr>"
proof -
  let ?kept = "filter (matches h ids) cs"
  let ?h1 = "h @ [PDict d]"
  let ?g = "h @ [PDict d, PList ?kept]"
  have a: "a < length h" and c: "c < length h" and l: "l < length h"
    using A C E by (auto dest: deref_lt)
  have 1: "py_copy h (PRef a) = Inr (?h1, PRef (length h))"
    by (simp add: py_copy_def A alloc_def)
  have A1: "deref ?h1 a = Some (PDict d)" and C1: "deref ?h1 c = Some (PDict cat)"
    using a c A C by (simp_all add: deref_append)
  have 2: "structure_missing ?h1 (PRef a) = Inr False"
    by (simp add: structure_missing_def py_contains_def py_getitem_def A1 B C1 D)
  have 3: "py_getitem ?h1 (PRef a) ''catalog'' = Inr (PRef c)"
    by (simp add: py_getitem_def A1 B)
  have 4: "py_getitem ?h1 (PRef c) ''securityControls'' = Inr (PRef l)"
    by (simp add: py_getitem_def C1 D)
  have E2: "deref (h @ [PDict d, PList []]) l = Some (PList cs)"
    using l E by (simp add: deref_append)
  have 5: "py_iter (h @ [PDict d, PList []]) (PRef l) = Inr cs"
    by (simp add: py_iter_def E2)
  have 6: "filter_loop (h @ [PDict d, PList []]) ids cs [] {} = Inr (?kept, id_of h ` set ?kept)"
    by (rule filter_loop_append [OF F])
  have 7: "(h @ [PDict d, PList []])[Suc (length h) := PList ?kept] = ?g"
    by (simp add: list_update_append)
  have fd: "deref ?g (length h) = Some (PDict d)"
    by (rule deref_fresh)
  have Cg: "deref ?g c = Some (PDict cat)"
    using c C by (simp add: deref_append)
  have neq: "c \<noteq> length h" using c by simp
  have 8: "filter_controls fmt ?h1 (PRef (length h)) (PRef l) ids =
      store_filtered fmt ?g (warning (missing_ids ids (id_of h ` set ?kept)))
        (PRef (length h)) (PRef (Suc (length h))) (length ?kept)"
    unfolding filter_controls_def alloc_def by (simp add: 5 6 7)
  show ?thesis
    unfolding extract_controls_by_id_def
    by (simp add: 1 2 3 4 8 store_filtered_eq [OF fd B Cg neq])
qed

lemma valid_documentE:
  assumes "valid_document h data"
  obtains a d c cat l cs where
    "data = PRef a" "deref h a = Some (PDict d)" "map_of d ''catalog'' = Some (PRef c)"
    "deref h c = Some (PDict cat)" "map_of cat ''securityControls'' = Some (PRef l)"
    "deref h l = Some (PList cs)" "list_all (is_mapping h) cs"
proof -
  from assms obtain cs where sc: "security_controls h data = Some cs"
    and all: "list_all (is_mapping h) cs"
    by (auto simp: valid_document_def split: option.splits)
  from sc obtain lv where cf: "catalog_field h data ''securityControls'' = Some lv"
    and la: "list_at h lv = Some cs"
    by (auto simp: security_controls_def split: option.splits)
  from cf obtain cv where f1: "field h data ''catalog'' = Some cv"
    and f2: "field h cv ''securityControls'' = Some lv"
    by (auto simp: catalog_field_def split: option.splits)
  from f1 obtain d where d: "dict_at h data = Some d" "map_of d ''catalog'' = Some cv"
    by (auto simp: field_def split: option.splits)
  from f2 obtain cat where c: "dict_at h cv = Some cat" "map_of cat ''securityControls'' = Some lv"
    by (auto simp: field_def split: option.splits)
  from d(1) obtain a where a: "data = PRef a" "deref h a = Some (PDict d)" by (rule dict_atE)
  from c(1) obtain c' where c': "cv = PRef c'" "deref h c' = Some (PDict cat)" by (rule dict_atE)
  from la obtain l where l: "lv = PRef l" "deref h l = Some (PList cs)" by (rule list_atE)
  show thesis
    using that [of a d c' cat l cs] a c' l d c all by simp
qed

lemma shape_observe:
  assumes "deref h a = Some (PDict d)" "map_of d ''catalog'' = Some (PRef c)"
    "deref h c = Some (PDict cat)" "map_of cat ''securityControls'' = Some (PRef l)"
    "deref h l = Some (PList cs)"
  shows "security_controls h (PRef a) = Some cs"
    and "catalog_field h (PRef a) k = map_of cat k"
  using assms
  by (simp_all add: security_controls_def catalog_field_def field_def dict_at_def list_at_def)

lemma map_of_annotated:
  "map_of (annotated_catalog fmt g c kvs fr n) k =
     (if k = ''description''
      then Some (PStr (shown_description fmt
              (g[c := PDict (AList.update ''title''
                   (PStr (shown_title fmt (g[c := PDict (AList.update ''securityControls'' fr kvs)]) kvs
                          @ title_suffix n))
                   (AList.update ''securityControls'' fr kvs))]) kvs @ description_note n))
      else if k = ''title''
      then Some (PStr (shown_title fmt (g[c := PDict (AList.update ''securityControls'' fr kvs)]) kvs
                       @ title_suffix n))
      else if k = ''securityControls'' then Some fr
      else map_of kvs k)"
  by (simp add: annotated_catalog_def Let_def update_conv')

lemma shown_title_str:
  "map_of kvs ''title'' = Some (PStr t) \<Longrightarrow> shown_title fmt g kvs = t"
  "map_of kvs ''title'' = None \<Longrightarrow> shown_title fmt g kvs = ''NIST CSF 2.0''"
  by (simp_all add: shown_title_def py_format_def)

lemma shown_description_str:
  "map_of kvs ''description'' = Some (PStr t) \<Longrightarrow> shown_description fmt g kvs = t"
  "map_of kvs ''description'' = None \<Longrightarrow> shown_description fmt g kvs = []"
  by (simp_all add: shown_description_def py_format_def)

lemma extract_observe:
  fixes fmt :: "heap \<Rightarrow> pval \<Rightarrow> string" and ids :: "string list"
  assumes A: "deref h a = Some (PDict d)"
    and B: "map_of d ''catalog'' = Some (PRef c)"
    and C: "deref h c = Some (PDict cat)"
    and D: "map_of cat ''securityControls'' = Some (PRef l)"
    and E: "deref h l = Some (PList cs)"
    and F: "list_all (is_mapping h) cs"
  defines "out \<equiv> extract_controls_by_id fmt h (PRef a) ids"
    and "kept \<equiv> filter (matches h ids) cs"
  shows "result out = Inr (PRef (length h))"
    and "warned out = warning (missing_ids ids (id_of h ` set kept))"
    and "output_controls out = Some kept"
    and "\<exists>g. output_field out ''title'' = Some (PStr (shown_title fmt g cat @ title_suffix (length kept)))"
    and "\<exists>g. output_field out ''description'' =
           Some (PStr (shown_description fmt g cat @ description_note (length kept)))"
    and "deref (heap_of out) (length h) = Some (PDict d)"
    and "\<exists>cat'. deref (heap_of out) c = Some (PDict cat') \<and>
           map_of cat' ''securityControls'' = Some (PRef (Suc (length h))) \<and>
           (\<forall>k. k \<noteq> ''securityControls'' \<longrightarrow> k \<noteq> ''title'' \<longrightarrow> k \<noteq> ''description'' \<longrightarrow>
                map_of cat' k = map_of cat k)"
    and "deref (heap_of out) (Suc (length h)) = Some (PList kept)"
    and "\<And>b. b < length h \<Longrightarrow> b \<noteq> c \<Longrightarrow> deref (heap_of out) b = deref h b"
    and "length (heap_of out) = Suc (Suc (length h))"
proof -
  note eq = extract_eq [OF A B C D E F, of fmt ids, folded out_def kept_def]
  have c: "c < length h" using C by (rule deref_lt)
  let ?g = "h @ [PDict d, PList kept]"
  let ?cat' = "annotated_catalog fmt ?g c cat (PRef (Suc (length h))) (length kept)"
  have heap: "heap_of out = ?g[c := PDict ?cat']" by (simp add: eq)
  show r: "result out = Inr (PRef (length h))" by (simp add: eq)
  show "warned out = warning (missing_ids ids (id_of h ` set kept))" by (simp add: eq)
  show fd: "deref (heap_of out) (length h) = Some (PDict d)"
    using c by (simp add: heap deref_update deref_fresh)
  have cc: "deref (heap_of out) c = Some (PDict ?cat')"
    using c by (simp add: heap deref_update)
  show fl: "deref (heap_of out) (Suc (length h)) = Some (PList kept)"
    using c by (simp add: heap deref_update deref_fresh_Suc)
  show "\<exists>cat'. deref (heap_of out) c = Some (PDict cat') \<and>
           map_of cat' ''securityControls'' = Some (PRef (Suc (length h))) \<and>
           (\<forall>k. k \<noteq> ''securityControls'' \<longrightarrow> k \<noteq> ''title'' \<longrightarrow> k \<noteq> ''description'' \<longrightarrow>
                map_of cat' k = map_of cat k)"
    using cc by (simp add: map_of_annotated)
  have sc: "map_of ?cat' ''securityControls'' = Some (PRef (Suc (length h)))"
    by (simp add: map_of_annotated)
  show "output_controls out = Some kept"
    by (simp add: output_controls_def r shape_observe(1) [OF fd B cc sc fl])
  have cf: "output_field out k = map_of ?cat' k" for k
    by (simp add: output_field_def r shape_observe(2) [OF fd B cc sc fl])
  show "\<exists>g. output_field out ''title'' = Some (PStr (shown_title fmt g cat @ title_suffix (length kept)))"
    by (simp add: cf map_of_annotated) blast
  show "\<exists>g. output_field out ''description'' =
           Some (PStr (shown_description fmt g cat @ description_note (length kept)))"
    by (simp add: cf map_of_annotated) blast
  show "\<And>b. b < length h \<Longrightarrow> b \<noteq> c \<Longrightarrow> deref (heap_of out) b = deref h b"
    by (simp add: heap deref_update deref_append)
  show "length (heap_of out) = Suc (Suc (length h))" by (simp add: heap)
qed


lemma matches_has_id: "matches h ids x \<longleftrightarrow> (\<exists>s\<in>set ids. has_id h s x)"
  by (auto simp: matches_def has_id_def split: option.splits pval.splits)

lemma extract_preserves_control:
  fixes fmt :: "heap \<Rightarrow> pval \<Rightarrow> string" and ids :: "string list"
  assumes A: "deref h a = Some (PDict d)"
    and B: "map_of d ''catalog'' = Some (PRef c)"
    and C: "deref h c = Some (PDict cat)"
    and D: "map_of cat ''securityControls'' = Some (PRef l)"
    and E: "deref h l = Some (PList cs)"
    and F: "list_all (is_mapping h) cs"
    and x: "is_mapping h x"
  shows "is_mapping (heap_of (extract_controls_by_id fmt h (PRef a) ids)) x
     \<and> field (heap_of (extract_controls_by_id fmt h (PRef a) ids)) x ''controlId'' =
         field h x ''controlId''"
proof -
  let ?out = "extract_controls_by_id fmt h (PRef a) ids"
  note obs = extract_observe [OF A B C D E F, where fmt=fmt and ids=ids]
  from x obtain kvs where "dict_at h x = Some kvs" by (auto simp: is_mapping_def)
  then obtain b where xb: "x = PRef b" and b: "deref h b = Some (PDict kvs)" by (rule dict_atE)
  have lt: "b < length h" using b by (rule deref_lt)
  have old: "dict_at h (PRef b) = Some kvs" by (simp add: dict_at_def b)
  show ?thesis
  proof (cases "b = c")
    case True
    from b C have kvs: "kvs = cat" unfolding True by simp
    from obs(7) obtain cat' where c': "deref (heap_of ?out) c = Some (PDict cat')"
      and rest: "\<forall>k. k \<noteq> ''securityControls'' \<longrightarrow> k \<noteq> ''title'' \<longrightarrow> k \<noteq> ''description'' \<longrightarrow>
                map_of cat' k = map_of cat k"
      by blast
    from rest [rule_format, of "''controlId''"]
    have same: "map_of cat' ''controlId'' = map_of cat ''controlId''" by simp
    have new: "dict_at (heap_of ?out) (PRef c) = Some cat'" by (simp add: dict_at_def c')
    have old': "dict_at h (PRef c) = Some cat" by (simp add: dict_at_def C)
    show ?thesis
      unfolding xb True by (simp add: is_mapping_def field_def new old' same)
  next
    case False
    have "deref (heap_of ?out) b = Some (PDict kvs)"
      using obs(9) [OF lt False] b by simp
    then have new: "dict_at (heap_of ?out) (PRef b) = Some kvs" by (simp add: dict_at_def)
    show ?thesis
      unfolding xb by (simp add: is_mapping_def field_def new old)
  qed
qed

lemma valid_document_run:
  assumes valid: "valid_document h data"
  obtains a d c cat l cs where "data = PRef a"
    and "deref h a = Some (PDict d)" and "map_of d ''catalog'' = Some (PRef c)"
    and "deref h c = Some (PDict cat)" and "map_of cat ''securityControls'' = Some (PRef l)"
    and "deref h l = Some (PList cs)" and "list_all (is_mapping h) cs"
    and "security_controls h data = Some cs"
    and "\<forall>k. catalog_field h data k = map_of cat k"
proof -
  from valid obtain a d c cat l cs where data: "data = PRef a"
    and A: "deref h a = Some (PDict d)" and B: "map_of d ''catalog'' = Some (PRef c)"
    and C: "deref h c = Some (PDict cat)" and D: "map_of cat ''securityControls'' = Some (PRef l)"
    and E: "deref h l = Some (PList cs)" and F: "list_all (is_mapping h) cs"
    by (rule valid_documentE)
  have sc: "security_controls h data = Some cs"
    unfolding data by (rule shape_observe(1) [OF A B C D E])
  have cf: "\<forall>k. catalog_field h data k = map_of cat k"
    unfolding data by (rule allI) (rule shape_observe(2) [OF A B C D E])
  show thesis
    by (rule that [OF data A B C D E F sc cf])
qed

section \<open>Missing identifiers and missing keys\<close>

lemma id_of_str: "PStr s = id_of h x \<longleftrightarrow> has_id h s x"
  by (cases "field h x ''controlId''") (auto simp: id_of_def has_id_def)

lemma missing_ids_eq:
  "missing_ids ids (id_of h ` set kept) = set ids - {s. \<exists>x\<in>set kept. has_id h s x}"
proof -
  have "PStr s \<in> id_of h ` set kept \<longleftrightarrow> (\<exists>x\<in>set kept. has_id h s x)" for s
    by (simp only: image_iff id_of_str)
  then show ?thesis
    unfolding missing_ids_def by (simp only: set_eq_iff mem_Collect_eq Diff_iff) simp
qed

lemma warning_cases:
  assumes "finite M"
  shows "(warning M = None \<longleftrightarrow> M = {}) \<and> (\<forall>w. warning M = Some w \<longrightarrow> set w = M)"
  using assms by (simp add: warning_def)

lemma matches_extra:
  assumes "\<forall>s\<in>set extra. \<not> has_id h s x"
  shows "matches h (ids @ extra) x = matches h ids x"
  using assms unfolding matches_has_id by (simp only: set_append bex_Un) blast

lemma extract_no_catalog:
  assumes A: "deref h a = Some (PDict d)"
    and B: "map_of d ''catalog'' = None"
  shows "extract_controls_by_id fmt h (PRef a) ids =
     raise (h @ [PDict d]) (ValueError structure_message)"
proof -
  have a: "a < length h" using A by (rule deref_lt)
  have 1: "py_copy h (PRef a) = Inr (h @ [PDict d], PRef (length h))"
    by (simp add: py_copy_def A alloc_def)
  have A1: "deref (h @ [PDict d]) a = Some (PDict d)"
    using a A by (simp add: deref_append)
  have 2: "structure_missing (h @ [PDict d]) (PRef a) = Inr True"
    by (simp add: structure_missing_def py_contains_def A1 B)
  show ?thesis
    unfolding extract_controls_by_id_def by (simp add: 1 2)
qed

lemma extract_no_controls:
  assumes A: "deref h a = Some (PDict d)"
    and B: "map_of d ''catalog'' = Some (PRef c)"
    and C: "deref h c = Some (PDict cat)"
    and D: "map_of cat ''securityControls'' = None"
  shows "extract_controls_by_id fmt h (PRef a) ids =
     raise (h @ [PDict d]) (ValueError structure_message)"
proof -
  have a: "a < length h" and c: "c < length h" using A C by (auto dest: deref_lt)
  have 1: "py_copy h (PRef a) = Inr (h @ [PDict d], PRef (length h))"
    by (simp add: py_copy_def A alloc_def)
  have A1: "deref (h @ [PDict d]) a = Some (PDict d)"
    and C1: "deref (h @ [PDict d]) c = Some (PDict cat)"
    using a c A C by (simp_all add: deref_append)
  have 2: "structure_missing (h @ [PDict d]) (PRef a) = Inr True"
    by (simp add: structure_missing_def py_contains_def py_getitem_def A1 B C1 D)
  show ?thesis
    unfolding extract_controls_by_id_def by (simp add: 1 2)
qed

lemma well_typed_cases:
  assumes wt: "well_typed_document h data"
  obtains (no_catalog) a d where "data = PRef a" "deref h a = Some (PDict d)"
      "map_of d ''catalog'' = None"
    | (no_controls) a d c cat where "data = PRef a" "deref h a = Some (PDict d)"
      "map_of d ''catalog'' = Some (PRef c)" "deref h c = Some (PDict cat)"
      "map_of cat ''securityControls'' = None"
    | (valid) "valid_document h data"
proof -
  from wt obtain d where d: "dict_at h data = Some d"
    by (auto simp: well_typed_document_def split: option.splits)
  then obtain a where a: "data = PRef a" "deref h a = Some (PDict d)" by (rule dict_atE)
  show thesis
  proof (cases "map_of d ''catalog''")
    case None
    with a show ?thesis by (rule no_catalog)
  next
    case (Some cv)
    with wt d obtain cat where cat: "dict_at h cv = Some cat"
      by (auto simp: well_typed_document_def split: option.splits)
    then obtain c where c: "cv = PRef c" "deref h c = Some (PDict cat)" by (rule dict_atE)
    show ?thesis
    proof (cases "map_of cat ''securityControls''")
      case None
      from a Some [unfolded c(1)] c(2) None show ?thesis by (rule no_controls)
    next
      case (Some lv)
      with wt d \<open>map_of d ''catalog'' = Some cv\<close> cat
      obtain cs where "list_at h lv = Some cs" "list_all (is_mapping h) cs"
        by (auto simp: well_typed_document_def split: option.splits)
      with d \<open>map_of d ''catalog'' = Some cv\<close> cat Some
      have "valid_document h data"
        by (simp add: valid_document_def security_controls_def catalog_field_def field_def)
      then show ?thesis by (rule valid)
    qed
  qed
qed

section \<open>The claims about the filter\<close>

text \<open>
  C1. The call does not leave the caller's document as it was. The copy is shallow: the
  copy and the original hold the same catalog dict, and the three writes go into it. On
  the example document, seen through the original at address 0 after a call with the
  identifier \<open>B\<close>, the title carries the suffix and the control list is the filtered
  one.
\<close>

theorem original_catalog_is_altered:
  "catalog_field example_heap (PRef 0) ''title'' = Some (PStr ''CSF'')
   \<and> security_controls example_heap (PRef 0) = Some [PRef 3, PRef 4, PRef 5, PRef 6]
   \<and> result (extract_controls_by_id no_text example_heap (PRef 0) [''B'']) = Inr (PRef 7)
   \<and> catalog_field (heap_of (extract_controls_by_id no_text example_heap (PRef 0) [''B'']))
        (PRef 0) ''title'' = Some (PStr ''CSF (Filtered - 1 controls)'')
   \<and> security_controls (heap_of (extract_controls_by_id no_text example_heap (PRef 0) [''B'']))
        (PRef 0) = Some [PRef 4]"
proof (intro conjI)
  show "catalog_field example_heap (PRef 0) ''title'' = Some (PStr ''CSF'')"
    unfolding example_heap_def by code_simp
  show "security_controls example_heap (PRef 0) = Some [PRef 3, PRef 4, PRef 5, PRef 6]"
    unfolding example_heap_def by code_simp
  show "result (extract_controls_by_id no_text example_heap (PRef 0) [''B'']) = Inr (PRef 7)"
    unfolding example_heap_def by code_simp
  show "catalog_field (heap_of (extract_controls_by_id no_text example_heap (PRef 0) [''B'']))
        (PRef 0) ''title'' = Some (PStr ''CSF (Filtered - 1 controls)'')"
    unfolding example_heap_def by code_simp
  show "security_controls (heap_of (extract_controls_by_id no_text example_heap (PRef 0) [''B'']))
        (PRef 0) = Some [PRef 4]"
    unfolding example_heap_def by code_simp
qed

text \<open>
  C2. On a valid document every control of the output has a \<open>controlId\<close> among the
  requested identifiers, every control of the input with such a \<open>controlId\<close> is in the
  output, and for each requested identifier the controls carrying it are all kept, in
  their order: controls that share an identifier are not merged.
\<close>

theorem filter_sound_and_complete:
  assumes valid: "valid_document h data"
    and cs: "security_controls h data = Some cs"
  shows "\<exists>kept. output_controls (extract_controls_by_id fmt h data ids) = Some kept
      \<and> (\<forall>x\<in>set kept. \<exists>s\<in>set ids.
            has_id (heap_of (extract_controls_by_id fmt h data ids)) s x)
      \<and> (\<forall>x\<in>set cs. \<forall>s\<in>set ids. has_id h s x \<longrightarrow> x \<in> set kept)
      \<and> (\<forall>s\<in>set ids. filter (has_id h s) kept = filter (has_id h s) cs)"
proof -
  from valid obtain a d c cat l cs' where data: "data = PRef a"
    and A: "deref h a = Some (PDict d)" and B: "map_of d ''catalog'' = Some (PRef c)"
    and C: "deref h c = Some (PDict cat)" and D: "map_of cat ''securityControls'' = Some (PRef l)"
    and E: "deref h l = Some (PList cs')" and F: "list_all (is_mapping h) cs'"
    by (rule valid_documentE)
  have "cs' = cs" using shape_observe(1) [OF A B C D E] cs data by simp
  note E = E [unfolded this] and F = F [unfolded this]
  let ?out = "extract_controls_by_id fmt h (PRef a) ids"
  let ?kept = "filter (matches h ids) cs"
  note obs = extract_observe [OF A B C D E F, where fmt=fmt and ids=ids]
  have out: "output_controls ?out = Some ?kept" by (rule obs(3))
  have sound: "\<exists>s\<in>set ids. has_id (heap_of ?out) s x" if "x \<in> set ?kept" for x
  proof -
    from that have m: "matches h ids x" and "x \<in> set cs" by simp_all
    with F have "is_mapping h x" by (simp add: list_all_iff)
    from extract_preserves_control [OF A B C D E F this, where fmt=fmt and ids=ids, THEN conjunct2] m
    show ?thesis by (simp add: matches_has_id has_id_def)
  qed
  have complete: "x \<in> set ?kept" if "x \<in> set cs" "s \<in> set ids" "has_id h s x" for x s
  proof -
    from that(2,3) have "matches h ids x" unfolding matches_has_id by (rule bexI [rotated])
    with that(1) show ?thesis by simp
  qed
  have dup: "filter (has_id h s) ?kept = filter (has_id h s) cs" if "s \<in> set ids" for s
  proof -
    have "filter (has_id h s) ?kept = filter (\<lambda>x. matches h ids x \<and> has_id h s x) cs"
      by simp
    also have "\<dots> = filter (has_id h s) cs"
    proof (rule filter_cong [OF refl])
      fix x
      show "(matches h ids x \<and> has_id h s x) = has_id h s x"
        using that unfolding matches_has_id by (rule_tac iffI) (simp, rule conjI, rule bexI)
    qed
    finally show ?thesis .
  qed
  show ?thesis
    unfolding data
  proof (intro exI [of _ ?kept] conjI ballI impI)
    show "output_controls ?out = Some ?kept" by (rule out)
  next
    fix x assume "x \<in> set ?kept"
    then show "\<exists>s\<in>set ids. has_id (heap_of ?out) s x" by (rule sound)
  next
    fix x s assume "x \<in> set cs" "s \<in> set ids" "has_id h s x"
    then show "x \<in> set ?kept" by (rule complete)
  next
    fix s assume "s \<in> set ids"
    then show "filter (has_id h s) ?kept = filter (has_id h s) cs" by (rule dup)
  qed
qed

theorem filter_sound_and_complete_witness:
  "valid_document example_heap (PRef 0)
   \<and> security_controls example_heap (PRef 0) = Some [PRef 3, PRef 4, PRef 5, PRef 6]
   \<and> (\<exists>kept. output_controls (extract_controls_by_id no_text example_heap (PRef 0) [''A'', ''X''])
          = Some kept
      \<and> (\<forall>x\<in>set kept. \<exists>s\<in>set [''A'', ''X''].
            has_id (heap_of (extract_controls_by_id no_text example_heap (PRef 0) [''A'', ''X''])) s x)
      \<and> (\<forall>x\<in>set [PRef 3, PRef 4, PRef 5, PRef 6]. \<forall>s\<in>set [''A'', ''X''].
            has_id example_heap s x \<longrightarrow> x \<in> set kept)
      \<and> (\<forall>s\<in>set [''A'', ''X''].
            filter (has_id example_heap s) kept =
            filter (has_id example_heap s) [PRef 3, PRef 4, PRef 5, PRef 6]))"
proof -
  have v: "valid_document example_heap (PRef 0)"
    unfolding example_heap_def by code_simp
  have s: "security_controls example_heap (PRef 0) = Some [PRef 3, PRef 4, PRef 5, PRef 6]"
    unfolding example_heap_def by code_simp
  from v s filter_sound_and_complete [OF v s, where fmt=no_text and ids="[''A'', ''X'']"]
  show ?thesis by (intro conjI)
qed

text \<open>
  C3. On a valid document the output controls are the original sequence restricted to
  the matching controls, a subsequence of it in the original order, and a rearrangement
  of the requested identifiers gives the same output controls.
\<close>

theorem output_is_subsequence:
  assumes valid: "valid_document h data"
    and cs: "security_controls h data = Some cs"
  shows "output_controls (extract_controls_by_id fmt h data ids) = Some (filter (matches h ids) cs)
      \<and> subseq (filter (matches h ids) cs) cs
      \<and> (\<forall>ids'. mset ids' = mset ids \<longrightarrow>
            output_controls (extract_controls_by_id fmt h data ids') =
            output_controls (extract_controls_by_id fmt h data ids))"
proof -
  from valid obtain a d c cat l cs' where data: "data = PRef a"
    and A: "deref h a = Some (PDict d)" and B: "map_of d ''catalog'' = Some (PRef c)"
    and C: "deref h c = Some (PDict cat)" and D: "map_of cat ''securityControls'' = Some (PRef l)"
    and E: "deref h l = Some (PList cs')" and F: "list_all (is_mapping h) cs'"
    and sc: "security_controls h data = Some cs'"
    and cf: "\<forall>k. catalog_field h data k = map_of cat k"
    by (rule valid_document_run)
  have eq: "cs' = cs" using sc cs by simp
  have out: "output_controls (extract_controls_by_id fmt h data ids') =
      Some (filter (matches h ids') cs)" for ids'
    unfolding data using extract_observe(3) [OF A B C D E F, where fmt=fmt and ids=ids']
    by (simp add: eq)
  have perm: "filter (matches h ids') cs = filter (matches h ids) cs" if "mset ids' = mset ids"
    for ids'
  proof -
    from that have "set ids' = set ids" by (rule mset_eq_setD)
    then have "matches h ids' x = matches h ids x" for x by (simp only: matches_has_id)
    then have "matches h ids' = matches h ids" by (rule ext)
    then show ?thesis by (rule arg_cong [where f="\<lambda>p. filter p cs"])
  qed
  show ?thesis
  proof (intro conjI allI impI)
    show "output_controls (extract_controls_by_id fmt h data ids) = Some (filter (matches h ids) cs)"
      by (rule out)
    show "subseq (filter (matches h ids) cs) cs" by (rule subseq_filter_left)
  next
    fix ids' assume "mset ids' = mset ids"
    then have "filter (matches h ids') cs = filter (matches h ids) cs" by (rule perm)
    then show "output_controls (extract_controls_by_id fmt h data ids') =
            output_controls (extract_controls_by_id fmt h data ids)"
      by (simp only: out)
  qed
qed

theorem output_is_subsequence_witness:
  "valid_document example_heap (PRef 0)
   \<and> security_controls example_heap (PRef 0) = Some [PRef 3, PRef 4, PRef 5, PRef 6]
   \<and> mset [''A'', ''B''] = mset [''B'', ''A'']
   \<and> output_controls (extract_controls_by_id no_text example_heap (PRef 0) [''B'', ''A''])
        = Some [PRef 3, PRef 4, PRef 6]
   \<and> output_controls (extract_controls_by_id no_text example_heap (PRef 0) [''A'', ''B''])
        = Some [PRef 3, PRef 4, PRef 6]"
proof -
  have v: "valid_document example_heap (PRef 0)"
    unfolding example_heap_def by code_simp
  have s: "security_controls example_heap (PRef 0) = Some [PRef 3, PRef 4, PRef 5, PRef 6]"
    unfolding example_heap_def by code_simp
  have m: "mset [''A'', ''B''] = mset [''B'', ''A'']" by (simp add: add_mset_commute)
  have f: "filter (matches example_heap [''B'', ''A'']) [PRef 3, PRef 4, PRef 5, PRef 6]
      = [PRef 3, PRef 4, PRef 6]"
    unfolding example_heap_def by code_simp
  note inst = output_is_subsequence [OF v s, where fmt=no_text and ids="[''B'', ''A'']"]
  from inst have 1:
    "output_controls (extract_controls_by_id no_text example_heap (PRef 0) [''B'', ''A''])
       = Some [PRef 3, PRef 4, PRef 6]"
    by (simp only: f)
  from inst m have 2:
    "output_controls (extract_controls_by_id no_text example_heap (PRef 0) [''A'', ''B''])
       = output_controls (extract_controls_by_id no_text example_heap (PRef 0) [''B'', ''A''])"
    by blast
  from v s m 1 2 show ?thesis by (simp only: simp_thms)
qed

text \<open>
  C4, as amended. On a document of the right kinds of value (a dict; its catalog, when
  present, a dict; the \<open>securityControls\<close> of that, when present, a list of dicts) the
  call raises if and only if the key \<open>catalog\<close> or the key \<open>securityControls\<close> of the
  catalog is missing. It then raises the \<open>ValueError\<close> with the message about the
  missing structure, prints no warning, and every object that was in the store before
  the call is as it was.
\<close>

theorem structure_error_iff_key_missing:
  assumes wt: "well_typed_document h data"
  shows "((\<exists>e. result (extract_controls_by_id fmt h data ids) = Inl e) \<longleftrightarrow>
           (field h data ''catalog'' = None \<or> catalog_field h data ''securityControls'' = None))
      \<and> ((field h data ''catalog'' = None \<or> catalog_field h data ''securityControls'' = None) \<longrightarrow>
           result (extract_controls_by_id fmt h data ids) = Inl (ValueError structure_message)
           \<and> warned (extract_controls_by_id fmt h data ids) = None
           \<and> take (length h) (heap_of (extract_controls_by_id fmt h data ids)) = h)"
  using wt
proof (cases rule: well_typed_cases)
  case (no_catalog a d)
  have f: "field h data ''catalog'' = None"
    using no_catalog by (simp add: field_def dict_at_def)
  have r: "extract_controls_by_id fmt h data ids = raise (h @ [PDict d]) (ValueError structure_message)"
    unfolding no_catalog(1) using no_catalog(2,3) by (rule extract_no_catalog)
  show ?thesis by (simp add: f r raise_def)
next
  case (no_controls a d c cat)
  have f: "catalog_field h data ''securityControls'' = None"
    using no_controls by (simp add: catalog_field_def field_def dict_at_def)
  have r: "extract_controls_by_id fmt h data ids = raise (h @ [PDict d]) (ValueError structure_message)"
    unfolding no_controls(1) using no_controls(2-5) by (rule extract_no_controls)
  show ?thesis by (simp add: f r raise_def)
next
  case valid
  from valid obtain a d c cat l cs where data: "data = PRef a"
    and A: "deref h a = Some (PDict d)" and B: "map_of d ''catalog'' = Some (PRef c)"
    and C: "deref h c = Some (PDict cat)" and D: "map_of cat ''securityControls'' = Some (PRef l)"
    and E: "deref h l = Some (PList cs)" and F: "list_all (is_mapping h) cs"
    and sc: "security_controls h data = Some cs"
    and cf: "\<forall>k. catalog_field h data k = map_of cat k"
    by (rule valid_document_run)
  have r: "result (extract_controls_by_id fmt h data ids) = Inr (PRef (length h))"
    unfolding data by (rule extract_observe(1) [OF A B C D E F])
  have f1: "field h data ''catalog'' = Some (PRef c)"
    unfolding data using A B by (simp add: field_def dict_at_def)
  have f2: "catalog_field h data ''securityControls'' = Some (PRef l)"
    using cf D by simp
  show ?thesis by (simp add: r f1 f2)
qed

theorem structure_error_iff_key_missing_witness:
  "well_typed_document keyless_heap (PRef 0)
   \<and> catalog_field keyless_heap (PRef 0) ''securityControls'' = None
   \<and> result (extract_controls_by_id no_text keyless_heap (PRef 0) [''A''])
        = Inl (ValueError structure_message)
   \<and> warned (extract_controls_by_id no_text keyless_heap (PRef 0) [''A'']) = None
   \<and> take (length keyless_heap) (heap_of (extract_controls_by_id no_text keyless_heap (PRef 0) [''A'']))
        = keyless_heap"
proof -
  have wt: "well_typed_document keyless_heap (PRef 0)"
    unfolding keyless_heap_def by code_simp
  have k: "catalog_field keyless_heap (PRef 0) ''securityControls'' = None"
    unfolding keyless_heap_def by code_simp
  from structure_error_iff_key_missing [OF wt, where fmt=no_text and ids="[''A'']"] k wt
  show ?thesis by simp
qed

text \<open>
  C4 as stated fails on a document that has both keys: with a number in the control
  list the loop raises \<open>AttributeError\<close> at \<open>control.get\<close>.
\<close>

theorem abort_with_both_keys_counterexample:
  "field number_control_heap (PRef 0) ''catalog'' = Some (PRef 1)
   \<and> catalog_field number_control_heap (PRef 0) ''securityControls'' = Some (PRef 2)
   \<and> result (extract_controls_by_id no_text number_control_heap (PRef 0) []) = Inl AttributeError"
proof (intro conjI)
  show "field number_control_heap (PRef 0) ''catalog'' = Some (PRef 1)"
    unfolding number_control_heap_def by code_simp
  show "catalog_field number_control_heap (PRef 0) ''securityControls'' = Some (PRef 2)"
    unfolding number_control_heap_def by code_simp
  show "result (extract_controls_by_id no_text number_control_heap (PRef 0) []) = Inl AttributeError"
    unfolding number_control_heap_def by code_simp
qed

text \<open>
  C5. On a valid document whose catalog has a string title, and a string description or
  none, the output title is the original title followed by
  \<open>" (Filtered - N controls)"\<close>, and the output description is the original description
  (the empty string when there was none) followed by two newlines and the note, with
  \<open>N\<close> the number of controls kept in both.
\<close>

theorem metadata_annotated:
  assumes valid: "valid_document h data"
    and title: "catalog_field h data ''title'' = Some (PStr t)"
    and descr: "catalog_field h data ''description'' = Some (PStr ds)
        \<or> catalog_field h data ''description'' = None \<and> ds = []"
  shows "\<exists>kept. output_controls (extract_controls_by_id fmt h data ids) = Some kept
      \<and> output_field (extract_controls_by_id fmt h data ids) ''title'' =
          Some (PStr (t @ '' (Filtered - '' @ str_of_nat (length kept) @ '' controls)''))
      \<and> output_field (extract_controls_by_id fmt h data ids) ''description'' =
          Some (PStr (ds @ [CHR 0x0A, CHR 0x0A] @
            ''<p><strong>Note:</strong> This is a filtered version containing only '' @
            str_of_nat (length kept) @
            '' specific controls extracted from the original framework.</p>''))"
proof -
  from valid obtain a d c cat l cs where data: "data = PRef a"
    and A: "deref h a = Some (PDict d)" and B: "map_of d ''catalog'' = Some (PRef c)"
    and C: "deref h c = Some (PDict cat)" and D: "map_of cat ''securityControls'' = Some (PRef l)"
    and E: "deref h l = Some (PList cs)" and F: "list_all (is_mapping h) cs"
    and sc: "security_controls h data = Some cs"
    and cf: "\<forall>k. catalog_field h data k = map_of cat k"
    by (rule valid_document_run)
  let ?out = "extract_controls_by_id fmt h (PRef a) ids"
  let ?n = "length (filter (matches h ids) cs)"
  note obs = extract_observe [OF A B C D E F, where fmt=fmt and ids=ids]
  have t: "map_of cat ''title'' = Some (PStr t)" using title cf by simp
  from descr cf have descr':
    "map_of cat ''description'' = Some (PStr ds) \<or> map_of cat ''description'' = None \<and> ds = []"
    by simp
  have sd: "shown_description fmt g cat = ds" for g
    using descr'
  proof (elim disjE conjE)
    assume "map_of cat ''description'' = Some (PStr ds)"
    then show ?thesis by (rule shown_description_str(1))
  next
    assume "map_of cat ''description'' = None" "ds = []"
    then show ?thesis by (simp add: shown_description_str(2))
  qed
  from obs(4) obtain g where
    "output_field ?out ''title'' = Some (PStr (shown_title fmt g cat @ title_suffix ?n))"
    by blast
  then have 1: "output_field ?out ''title'' =
      Some (PStr (t @ '' (Filtered - '' @ str_of_nat ?n @ '' controls)''))"
    by (simp add: shown_title_str(1) [OF t] title_suffix_def)
  from obs(5) obtain g' where
    "output_field ?out ''description'' =
       Some (PStr (shown_description fmt g' cat @ description_note ?n))"
    by blast
  then have 2: "output_field ?out ''description'' =
      Some (PStr (ds @ [CHR 0x0A, CHR 0x0A] @
            ''<p><strong>Note:</strong> This is a filtered version containing only '' @
            str_of_nat ?n @
            '' specific controls extracted from the original framework.</p>''))"
    by (simp add: sd description_note_def)
  from obs(3) 1 2 show ?thesis unfolding data by (intro exI conjI)
qed

theorem metadata_annotated_witness:
  "valid_document example_heap (PRef 0)
   \<and> catalog_field example_heap (PRef 0) ''title'' = Some (PStr ''CSF'')
   \<and> catalog_field example_heap (PRef 0) ''description'' = Some (PStr ''All'')
   \<and> (\<exists>kept. output_controls (extract_controls_by_id no_text example_heap (PRef 0) [''A'']) = Some kept
      \<and> output_field (extract_controls_by_id no_text example_heap (PRef 0) [''A'']) ''title'' =
          Some (PStr (''CSF'' @ '' (Filtered - '' @ str_of_nat (length kept) @ '' controls)''))
      \<and> output_field (extract_controls_by_id no_text example_heap (PRef 0) [''A'']) ''description'' =
          Some (PStr (''All'' @ [CHR 0x0A, CHR 0x0A] @
            ''<p><strong>Note:</strong> This is a filtered version containing only '' @
            str_of_nat (length kept) @
            '' specific controls extracted from the original framework.</p>'')))"
proof -
  have v: "valid_document example_heap (PRef 0)"
    unfolding example_heap_def by code_simp
  have t: "catalog_field example_heap (PRef 0) ''title'' = Some (PStr ''CSF'')"
    unfolding example_heap_def by code_simp
  have d: "catalog_field example_heap (PRef 0) ''description'' = Some (PStr ''All'')"
    unfolding example_heap_def by code_simp
  from v t d metadata_annotated [OF v t disjI1 [OF d], where fmt=no_text and ids="[''A'']"]
  show ?thesis by (intro conjI)
qed

text \<open>
  C6. On a valid document the call returns; a warning is printed exactly when the set of
  requested identifiers minus the identifiers of the kept controls is not empty, and it
  lists that set. Requesting further identifiers that no control carries changes neither
  the success of the call nor the controls kept.
\<close>

theorem not_found_is_advisory:
  assumes valid: "valid_document h data"
    and cs: "security_controls h data = Some cs"
  shows "\<exists>r kept. result (extract_controls_by_id fmt h data ids) = Inr r
      \<and> output_controls (extract_controls_by_id fmt h data ids) = Some kept
      \<and> (warned (extract_controls_by_id fmt h data ids) = None \<longleftrightarrow>
           set ids - {s. \<exists>x\<in>set kept. has_id h s x} = {})
      \<and> (\<forall>w. warned (extract_controls_by_id fmt h data ids) = Some w \<longrightarrow>
           set w = set ids - {s. \<exists>x\<in>set kept. has_id h s x})
      \<and> (\<forall>extra. (\<forall>s\<in>set extra. \<forall>x\<in>set cs. \<not> has_id h s x) \<longrightarrow>
           (\<exists>r'. result (extract_controls_by_id fmt h data (ids @ extra)) = Inr r') \<and>
           output_controls (extract_controls_by_id fmt h data (ids @ extra)) = Some kept)"
proof -
  from valid obtain a d c cat l cs' where data: "data = PRef a"
    and A: "deref h a = Some (PDict d)" and B: "map_of d ''catalog'' = Some (PRef c)"
    and C: "deref h c = Some (PDict cat)" and D: "map_of cat ''securityControls'' = Some (PRef l)"
    and E: "deref h l = Some (PList cs')" and F: "list_all (is_mapping h) cs'"
    and sc: "security_controls h data = Some cs'"
    and cf: "\<forall>k. catalog_field h data k = map_of cat k"
    by (rule valid_document_run)
  have eq: "cs' = cs" using sc cs by simp
  note E = E [unfolded eq] and F = F [unfolded eq]
  let ?kept = "filter (matches h ids) cs"
  let ?M = "set ids - {s. \<exists>x\<in>set ?kept. has_id h s x}"
  note obs = extract_observe [OF A B C D E F, where fmt=fmt and ids=ids]
  have w: "warned (extract_controls_by_id fmt h (PRef a) ids) = warning ?M"
    using obs(2) by (simp only: missing_ids_eq)
  have fin: "finite ?M" by simp
  note wc = warning_cases [OF fin, folded w]
  have extra: "result (extract_controls_by_id fmt h (PRef a) (ids @ extra)) = Inr (PRef (length h)) \<and>
           output_controls (extract_controls_by_id fmt h (PRef a) (ids @ extra)) = Some ?kept"
    if none: "\<forall>s\<in>set extra. \<forall>x\<in>set cs. \<not> has_id h s x" for extra
  proof -
    note obs' = extract_observe [OF A B C D E F, where fmt=fmt and ids="ids @ extra"]
    have "filter (matches h (ids @ extra)) cs = ?kept"
    proof (rule filter_cong [OF refl])
      fix x assume "x \<in> set cs"
      with none have "\<forall>s\<in>set extra. \<not> has_id h s x" by blast
      then show "matches h (ids @ extra) x = matches h ids x" by (rule matches_extra)
    qed
    with obs'(1) obs'(3) show ?thesis by simp
  qed
  show ?thesis
    unfolding data
  proof (intro exI conjI allI impI)
    show "result (extract_controls_by_id fmt h (PRef a) ids) = Inr (PRef (length h))"
      by (rule obs(1))
    show "output_controls (extract_controls_by_id fmt h (PRef a) ids) = Some ?kept"
      by (rule obs(3))
    show "warned (extract_controls_by_id fmt h (PRef a) ids) = None \<longleftrightarrow> ?M = {}"
      by (rule wc [THEN conjunct1])
  next
    fix w assume "warned (extract_controls_by_id fmt h (PRef a) ids) = Some w"
    with wc show "set w = ?M" by blast
  next
    fix extra assume n: "\<forall>s\<in>set extra. \<forall>x\<in>set cs. \<not> has_id h s x"
    from extra [OF n]
    show "result (extract_controls_by_id fmt h (PRef a) (ids @ extra)) = Inr (PRef (length h))"
      by (rule conjunct1)
    from extra [OF n]
    show "output_controls (extract_controls_by_id fmt h (PRef a) (ids @ extra)) = Some ?kept"
      by (rule conjunct2)
  qed
qed


theorem not_found_is_advisory_witness:
  "valid_document example_heap (PRef 0)
   \<and> security_controls example_heap (PRef 0) = Some [PRef 3, PRef 4, PRef 5, PRef 6]
   \<and> warned (extract_controls_by_id no_text example_heap (PRef 0) [''B'', ''X'']) = Some [''X'']
   \<and> (\<exists>r kept. result (extract_controls_by_id no_text example_heap (PRef 0) [''B'', ''X'']) = Inr r
      \<and> output_controls (extract_controls_by_id no_text example_heap (PRef 0) [''B'', ''X'']) = Some kept
      \<and> (warned (extract_controls_by_id no_text example_heap (PRef 0) [''B'', ''X'']) = None \<longleftrightarrow>
           set [''B'', ''X''] - {s. \<exists>x\<in>set kept. has_id example_heap s x} = {})
      \<and> (\<forall>w. warned (extract_controls_by_id no_text example_heap (PRef 0) [''B'', ''X'']) = Some w \<longrightarrow>
           set w = set [''B'', ''X''] - {s. \<exists>x\<in>set kept. has_id example_heap s x})
      \<and> (\<forall>extra. (\<forall>s\<in>set extra. \<forall>x\<in>set [PRef 3, PRef 4, PRef 5, PRef 6].
                       \<not> has_id example_heap s x) \<longrightarrow>
           (\<exists>r'. result (extract_controls_by_id no_text example_heap (PRef 0) ([''B'', ''X''] @ extra))
                  = Inr r') \<and>
           output_controls (extract_controls_by_id no_text example_heap (PRef 0) ([''B'', ''X''] @ extra))
             = Some kept))"
proof -
  have v: "valid_document example_heap (PRef 0)"
    unfolding example_heap_def by code_simp
  have s: "security_controls example_heap (PRef 0) = Some [PRef 3, PRef 4, PRef 5, PRef 6]"
    unfolding example_heap_def by code_simp
  have w: "warned (extract_controls_by_id no_text example_heap (PRef 0) [''B'', ''X'']) = Some [''X'']"
    unfolding example_heap_def by code_simp
  from v s w not_found_is_advisory [OF v s, where fmt=no_text and ids="[''B'', ''X'']"]
  show ?thesis by (intro conjI)
qed

text \<open>
  C7. Filtering the returned document again, with the same identifiers, in the store the
  first call left behind, gives the same sequence of controls.
\<close>

theorem refiltering_keeps_controls:
  assumes valid: "valid_document h data"
  shows "\<exists>r kept. result (extract_controls_by_id fmt h data ids) = Inr r
      \<and> output_controls (extract_controls_by_id fmt h data ids) = Some kept
      \<and> output_controls
           (extract_controls_by_id fmt (heap_of (extract_controls_by_id fmt h data ids)) r ids)
          = Some kept"
proof -
  from valid obtain a d c cat l cs where data: "data = PRef a"
    and A: "deref h a = Some (PDict d)" and B: "map_of d ''catalog'' = Some (PRef c)"
    and C: "deref h c = Some (PDict cat)" and D: "map_of cat ''securityControls'' = Some (PRef l)"
    and E: "deref h l = Some (PList cs)" and F: "list_all (is_mapping h) cs"
    and sc: "security_controls h data = Some cs"
    and cf: "\<forall>k. catalog_field h data k = map_of cat k"
    by (rule valid_document_run)
  let ?out = "extract_controls_by_id fmt h (PRef a) ids"
  let ?h1 = "heap_of ?out"
  let ?kept = "filter (matches h ids) cs"
  note obs = extract_observe [OF A B C D E F, where fmt=fmt and ids=ids]
  note keep = extract_preserves_control [OF A B C D E F, where fmt=fmt and ids=ids]
  from obs(7) obtain cat' where C1: "deref ?h1 c = Some (PDict cat')"
    and D1: "map_of cat' ''securityControls'' = Some (PRef (Suc (length h)))"
    by blast
  have mapping: "is_mapping h x" if "x \<in> set cs" for x
    using F that by (simp add: list_all_iff)
  have F1: "list_all (is_mapping ?h1) ?kept"
    unfolding list_all_iff
  proof
    fix x assume "x \<in> set ?kept"
    then have "x \<in> set cs" by simp
    then have "is_mapping h x" by (rule mapping)
    then show "is_mapping ?h1 x" by (rule keep [THEN conjunct1])
  qed
  have same: "matches ?h1 ids x = matches h ids x" if "x \<in> set cs" for x
  proof -
    from that have "is_mapping h x" by (rule mapping)
    then have "field ?h1 x ''controlId'' = field h x ''controlId''"
      by (rule keep [THEN conjunct2])
    then show ?thesis by (simp only: matches_def)
  qed
  have again: "filter (matches ?h1 ids) ?kept = ?kept"
  proof -
    have "filter (matches ?h1 ids) ?kept = filter (matches h ids) ?kept"
    proof (rule filter_cong [OF refl])
      fix x assume "x \<in> set ?kept"
      then have "x \<in> set cs" by simp
      then show "matches ?h1 ids x = matches h ids x" by (rule same)
    qed
    also have "\<dots> = ?kept" by simp
    finally show ?thesis .
  qed
  have second: "output_controls (extract_controls_by_id fmt ?h1 (PRef (length h)) ids) = Some ?kept"
    using extract_observe(3) [OF obs(6) B C1 D1 obs(8) F1, where fmt=fmt and ids=ids]
    by (simp only: again)
  show ?thesis
    unfolding data using obs(1) obs(3) second by (intro exI conjI)
qed

theorem refiltering_keeps_controls_witness:
  "valid_document example_heap (PRef 0)
   \<and> result (extract_controls_by_id no_text example_heap (PRef 0) [''A'']) = Inr (PRef 7)
   \<and> output_controls (extract_controls_by_id no_text example_heap (PRef 0) [''A''])
        = Some [PRef 3, PRef 6]
   \<and> output_controls
        (extract_controls_by_id no_text
           (heap_of (extract_controls_by_id no_text example_heap (PRef 0) [''A''])) (PRef 7) [''A''])
        = Some [PRef 3, PRef 6]"
proof -
  have v: "valid_document example_heap (PRef 0)"
    unfolding example_heap_def by code_simp
  have r: "result (extract_controls_by_id no_text example_heap (PRef 0) [''A'']) = Inr (PRef 7)"
    unfolding example_heap_def by code_simp
  have k: "output_controls (extract_controls_by_id no_text example_heap (PRef 0) [''A''])
        = Some [PRef 3, PRef 6]"
    unfolding example_heap_def by code_simp
  from refiltering_keeps_controls [OF v, where fmt=no_text and ids="[''A'']"]
  obtain r' kept where
    1: "result (extract_controls_by_id no_text example_heap (PRef 0) [''A'']) = Inr r'"
    and 2: "output_controls (extract_controls_by_id no_text example_heap (PRef 0) [''A'']) = Some kept"
    and 3: "output_controls
        (extract_controls_by_id no_text
           (heap_of (extract_controls_by_id no_text example_heap (PRef 0) [''A''])) r' [''A''])
        = Some kept"
    by blast
  from 1 r have "r' = PRef 7" by simp
  moreover from 2 k have "kept = [PRef 3, PRef 6]" by simp
  ultimately show ?thesis using v r k 3 by simp
qed

text \<open>
  C8. On a valid document a control whose \<open>controlId\<close> is absent or is not a string
  matches no list of requested strings: the call returns, and the control is not among
  the output controls.
\<close>

theorem malformed_control_never_matches:
  assumes valid: "valid_document h data"
    and cs: "security_controls h data = Some cs"
    and x: "x \<in> set cs"
    and bad: "\<forall>s. field h x ''controlId'' \<noteq> Some (PStr s)"
  shows "\<not> matches h ids x
      \<and> (\<exists>r kept. result (extract_controls_by_id fmt h data ids) = Inr r
            \<and> output_controls (extract_controls_by_id fmt h data ids) = Some kept
            \<and> x \<notin> set kept)"
proof -
  from valid obtain a d c cat l cs' where data: "data = PRef a"
    and A: "deref h a = Some (PDict d)" and B: "map_of d ''catalog'' = Some (PRef c)"
    and C: "deref h c = Some (PDict cat)" and D: "map_of cat ''securityControls'' = Some (PRef l)"
    and E: "deref h l = Some (PList cs')" and F: "list_all (is_mapping h) cs'"
    and sc: "security_controls h data = Some cs'"
    and cf: "\<forall>k. catalog_field h data k = map_of cat k"
    by (rule valid_document_run)
  have eq: "cs' = cs" using sc cs by simp
  note obs = extract_observe [OF A B C D E F, where fmt=fmt and ids=ids]
  have no: "\<not> matches h ids x"
    using bad by (simp add: matches_has_id has_id_def)
  then have "x \<notin> set (filter (matches h ids) cs)" by simp
  with obs(1) obs(3) no show ?thesis
    unfolding data eq by (intro conjI exI) assumption+
qed

theorem malformed_control_never_matches_witness:
  "valid_document untitled_heap (PRef 0)
   \<and> security_controls untitled_heap (PRef 0) = Some [PRef 3, PRef 4]
   \<and> PRef 4 \<in> set [PRef 3, PRef 4]
   \<and> field untitled_heap (PRef 4) ''controlId'' = Some (PInt 7)
   \<and> \<not> matches untitled_heap [''A'', ''7''] (PRef 4)
   \<and> (\<exists>r kept. result (extract_controls_by_id no_text untitled_heap (PRef 0) [''A'', ''7'']) = Inr r
          \<and> output_controls (extract_controls_by_id no_text untitled_heap (PRef 0) [''A'', ''7''])
               = Some kept
          \<and> PRef 4 \<notin> set kept)"
proof -
  have v: "valid_document untitled_heap (PRef 0)"
    unfolding untitled_heap_def by code_simp
  have s: "security_controls untitled_heap (PRef 0) = Some [PRef 3, PRef 4]"
    unfolding untitled_heap_def by code_simp
  have x: "PRef 4 \<in> set [PRef 3, PRef 4]" by simp
  have f: "field untitled_heap (PRef 4) ''controlId'' = Some (PInt 7)"
    unfolding untitled_heap_def by code_simp
  then have bad: "\<forall>s. field untitled_heap (PRef 4) ''controlId'' \<noteq> Some (PStr s)" by simp
  note inst =
    malformed_control_never_matches [OF v s x bad, where fmt=no_text and ids="[''A'', ''7'']"]
  from inst have a: "\<not> matches untitled_heap [''A'', ''7''] (PRef 4)" by (rule conjunct1)
  note b = inst [THEN conjunct2]
  from v s x f a b show ?thesis by (intro conjI)
qed

text \<open>
  C9. On a valid document whose catalog has no \<open>title\<close> key, the output title is
  \<open>"NIST CSF 2.0 (Filtered - N controls)"\<close>: the default stands in for the missing title.
\<close>

theorem missing_title_gets_default:
  assumes valid: "valid_document h data"
    and none: "catalog_field h data ''title'' = None"
  shows "\<exists>kept. output_controls (extract_controls_by_id fmt h data ids) = Some kept
      \<and> output_field (extract_controls_by_id fmt h data ids) ''title'' =
          Some (PStr (''NIST CSF 2.0 (Filtered - '' @ str_of_nat (length kept) @ '' controls)''))"
proof -
  from valid obtain a d c cat l cs where data: "data = PRef a"
    and A: "deref h a = Some (PDict d)" and B: "map_of d ''catalog'' = Some (PRef c)"
    and C: "deref h c = Some (PDict cat)" and D: "map_of cat ''securityControls'' = Some (PRef l)"
    and E: "deref h l = Some (PList cs)" and F: "list_all (is_mapping h) cs"
    and sc: "security_controls h data = Some cs"
    and cf: "\<forall>k. catalog_field h data k = map_of cat k"
    by (rule valid_document_run)
  note obs = extract_observe [OF A B C D E F, where fmt=fmt and ids=ids]
  have t: "map_of cat ''title'' = None" using none cf by simp
  from obs(4) obtain g where
    "output_field (extract_controls_by_id fmt h (PRef a) ids) ''title'' =
       Some (PStr (shown_title fmt g cat @ title_suffix (length (filter (matches h ids) cs))))"
    by blast
  then have "output_field (extract_controls_by_id fmt h (PRef a) ids) ''title'' =
       Some (PStr (''NIST CSF 2.0 (Filtered - '' @
          str_of_nat (length (filter (matches h ids) cs)) @ '' controls)''))"
    by (simp add: shown_title_str(2) [OF t] title_suffix_def)
  with obs(3) show ?thesis unfolding data by (intro exI conjI)
qed

theorem missing_title_gets_default_witness:
  "valid_document untitled_heap (PRef 0)
   \<and> catalog_field untitled_heap (PRef 0) ''title'' = None
   \<and> (\<exists>kept. output_controls (extract_controls_by_id no_text untitled_heap (PRef 0) [''A'']) = Some kept
      \<and> output_field (extract_controls_by_id no_text untitled_heap (PRef 0) [''A'']) ''title'' =
          Some (PStr (''NIST CSF 2.0 (Filtered - '' @ str_of_nat (length kept) @ '' controls)'')))"
proof -
  have v: "valid_document untitled_heap (PRef 0)"
    unfolding untitled_heap_def by code_simp
  have t: "catalog_field untitled_heap (PRef 0) ''title'' = None"
    unfolding untitled_heap_def by code_simp
  from v t missing_title_gets_default [OF v t, where fmt=no_text and ids="[''A'']"]
  show ?thesis by (intro conjI)
qed

text \<open>
  C10. With the flag \<open>--controls\<close> given no argument, \<open>main\<close> uses the built-in list of
  22 identifiers; whatever the command line, the list handed to the filter is never
  empty.
\<close>

theorem empty_controls_flag_uses_default:
  "select_control_ids (Some []) = TARGET_CONTROL_IDS
   \<and> length TARGET_CONTROL_IDS = 22
   \<and> (\<forall>controls. select_control_ids controls \<noteq> [])"
proof (intro conjI allI)
  show "select_control_ids (Some []) = TARGET_CONTROL_IDS"
    by (simp add: select_control_ids_def py_truthy_def)
  show len: "length TARGET_CONTROL_IDS = 22"
    by (simp add: TARGET_CONTROL_IDS_def)
  fix controls
  from len have "TARGET_CONTROL_IDS \<noteq> []" by auto
  then show "select_control_ids controls \<noteq> []"
    by (simp add: select_control_ids_def py_truthy_def split: option.splits)
qed

end
